theory Spec2Isabelle
  imports Complex_Main "HOL-Library.Sublist"
begin

section \<open>The doctor directory component (DoctorList.tsx)\<close>

text \<open>
  The component keeps three pieces of local state (the search text, the doctor the
  call dialog is about, and whether the dialog is shown), computes the filtered list
  of doctors at every render, and has three named event handlers and two inline ones
  (the search box and the cancel button). Its observable effects
  are toasts, \<^verbatim>\<open>window.open\<close>, an assignment to \<^verbatim>\<open>window.location.href\<close> and
  \<^verbatim>\<open>e.stopPropagation()\<close>; the handlers below return the new state together with
  the list of effects they performed, in order.

  Strings are HOL strings. The two library operations the component calls on
  strings, \<^verbatim>\<open>toLowerCase\<close> and \<^verbatim>\<open>includes\<close>, and the regular expression test, are
  modelled on ASCII text: \<open>toLowerCase\<close> maps \<open>A\<close>..\<open>Z\<close> to \<open>a\<close>..\<open>z\<close> and leaves every
  other character as it is.
\<close>

subsection \<open>Data\<close>

text \<open>\<^verbatim>\<open>availability: "Available" | "Busy" | "Away"\<close>\<close>

datatype Availability = Available | Busy | Away

fun availabilityString :: "Availability \<Rightarrow> string" where
  "availabilityString Available = ''Available''"
| "availabilityString Busy = ''Busy''"
| "availabilityString Away = ''Away''"

text \<open>
  \<^verbatim>\<open>interface Doctor\<close>. The fields \<^verbatim>\<open>id\<close> and \<^verbatim>\<open>image\<close> carry a prime, since HOL has
  constants of these names.
\<close>

record Doctor =
  id' :: string
  name :: string
  specialty :: string
  availability :: Availability
  image' :: string
  rating :: real
  experience :: string
  phone :: string

text \<open>The argument of \<^verbatim>\<open>toast({title, description, variant})\<close>; \<open>variant\<close> is optional.\<close>

record Toast =
  title :: string
  description :: string
  variant :: "string option"

datatype Effect =
    StopPropagation
  | ShowToast Toast
  | WindowOpen string string
  | LocationHref string

text \<open>The three \<^verbatim>\<open>useState\<close> cells of the component.\<close>

record State =
  searchTerm :: string
  callingDoctor :: "Doctor option"
  showCallDialog :: bool

definition initialState :: State where
  "initialState = \<lparr>searchTerm = [], callingDoctor = None, showCallDialog = False\<rparr>"

subsection \<open>String operations\<close>

definition toLowerChar :: "char \<Rightarrow> char" where
  "toLowerChar c =
     (let n = (of_char c :: nat) in if 65 \<le> n \<and> n \<le> 90 then char_of (n + 32) else c)"

definition toLowerCase :: "string \<Rightarrow> string" where
  "toLowerCase s = map toLowerChar s"

text \<open>
  \<^verbatim>\<open>String.prototype.includes\<close> is \<^verbatim>\<open>StringIndexOf(s, v, 0) !== -1\<close>: the search tries
  the positions \<open>i\<close>, \<open>i + 1\<close>, ... as long as \<open>v\<close> still fits, and returns the first
  one at which \<open>v\<close> stands in \<open>s\<close>.
\<close>

function stringIndexOf :: "string \<Rightarrow> string \<Rightarrow> nat \<Rightarrow> nat option" where
  "stringIndexOf s v i =
     (if length s < i + length v then None
      else if take (length v) (drop i s) = v then Some i
      else stringIndexOf s v (Suc i))"
  by pat_completeness auto
termination
  by (relation "measure (\<lambda>(s, v, i). Suc (length s) - i)") auto

definition includes_str :: "string \<Rightarrow> string \<Rightarrow> bool" where
  "includes_str s v = (case stringIndexOf s v 0 of None \<Rightarrow> False | Some _ \<Rightarrow> True)"

subsection \<open>Filtering\<close>

text \<open>
  \<^verbatim>\<open>Array.prototype.filter\<close>: a new array, to which the elements that pass the test
  are appended while the input is walked from index 0.
\<close>

fun filterLoop :: "('a \<Rightarrow> bool) \<Rightarrow> 'a list \<Rightarrow> 'a list \<Rightarrow> 'a list" where
  "filterLoop p [] kept = kept"
| "filterLoop p (x # xs) kept = filterLoop p xs (if p x then kept @ [x] else kept)"

definition array_filter :: "('a \<Rightarrow> bool) \<Rightarrow> 'a list \<Rightarrow> 'a list" where
  "array_filter p xs = filterLoop p xs []"

definition filteredDoctors :: "Doctor list \<Rightarrow> string \<Rightarrow> Doctor list" where
  "filteredDoctors doctors term =
     array_filter
       (\<lambda>doctor. includes_str (toLowerCase (name doctor)) (toLowerCase term) \<or>
                 includes_str (toLowerCase (specialty doctor)) (toLowerCase term))
       doctors"

subsection \<open>The call dialog\<close>

text \<open>
  \<^verbatim>\<open>handleCallDoctor(doctor, e)\<close>: the click is kept from the card; a doctor who is not
  available gets a destructive toast and nothing else happens; otherwise the doctor
  becomes the dialog's target and the dialog is shown.
\<close>

definition handleCallDoctor :: "Doctor \<Rightarrow> State \<Rightarrow> State \<times> Effect list" where
  "handleCallDoctor doctor st =
     (if availability doctor \<noteq> Available then
        (st,
         [StopPropagation,
          ShowToast
            \<lparr>title = ''Doctor Unavailable'',
             description =
               name doctor @ '' is currently '' @
               toLowerCase (availabilityString (availability doctor)) @
               ''. Please try again later.'',
             variant = Some ''destructive''\<rparr>])
      else
        (st\<lparr>callingDoctor := Some doctor, showCallDialog := True\<rparr>, [StopPropagation]))"

text \<open>\<^verbatim>\<open>handleWhatsAppCall()\<close>: nothing at all unless a target is set.\<close>

definition handleWhatsAppCall :: "State \<Rightarrow> State \<times> Effect list" where
  "handleWhatsAppCall st =
     (case callingDoctor st of
        None \<Rightarrow> (st, [])
      | Some doctor \<Rightarrow>
          (st\<lparr>showCallDialog := False\<rparr>,
           [WindowOpen (''https://wa.me/'' @ phone doctor) ''_blank'']))"

text \<open>
  The test \<^verbatim>\<open>/iPhone|iPad|iPod|Android/i.test(navigator.userAgent)\<close>. Without the
  \<^verbatim>\<open>u\<close> flag, ignoring case compares the upper-case forms of single characters, and
  a character outside ASCII never equals an ASCII one. The expression has no \<^verbatim>\<open>g\<close>
  flag, so every test starts at index 0 and tries each start position in turn, at
  each one the alternatives from left to right.
\<close>

definition canonicalize :: "char \<Rightarrow> char" where
  "canonicalize c =
     (let n = (of_char c :: nat) in if 97 \<le> n \<and> n \<le> 122 then char_of (n - 32) else c)"

fun literalAt :: "string \<Rightarrow> string \<Rightarrow> bool" where
  "literalAt [] s = True"
| "literalAt (p # ps) [] = False"
| "literalAt (p # ps) (c # cs) = (canonicalize p = canonicalize c \<and> literalAt ps cs)"

fun regexTest :: "string list \<Rightarrow> string \<Rightarrow> bool" where
  "regexTest alts [] = list_ex (\<lambda>a. literalAt a []) alts"
| "regexTest alts (c # cs) = (list_ex (\<lambda>a. literalAt a (c # cs)) alts \<or> regexTest alts cs)"

definition mobilePlatforms :: "string list" where
  "mobilePlatforms = [''iPhone'', ''iPad'', ''iPod'', ''Android'']"

definition isMobile :: "string \<Rightarrow> bool" where
  "isMobile userAgent = regexTest mobilePlatforms userAgent"

text \<open>
  \<^verbatim>\<open>handleDirectCall()\<close>, with \<^verbatim>\<open>navigator.userAgent\<close> as an argument. The second toast
  is given no variant.
\<close>

definition handleDirectCall :: "string \<Rightarrow> State \<Rightarrow> State \<times> Effect list" where
  "handleDirectCall userAgent st =
     (case callingDoctor st of
        None \<Rightarrow> (st, [])
      | Some doctor \<Rightarrow>
          (if isMobile userAgent then
             (st\<lparr>showCallDialog := False\<rparr>, [LocationHref (''tel:'' @ phone doctor)])
           else
             (st\<lparr>showCallDialog := False\<rparr>,
              [ShowToast
                 \<lparr>title = ''Desktop Detected'',
                  description = ''Direct calling is only available on mobile devices.'',
                  variant = None\<rparr>])))"

text \<open>
  The cancel button, \<^verbatim>\<open>() => setShowCallDialog(false)\<close>; the dialog's
  \<^verbatim>\<open>onOpenChange\<close> does the same when the dialog is dismissed.
\<close>

definition handleCancel :: "State \<Rightarrow> State \<times> Effect list" where
  "handleCancel st = (st\<lparr>showCallDialog := False\<rparr>, [])"

text \<open>The search box, \<^verbatim>\<open>onChange={(e) => setSearchTerm(e.target.value)}\<close>.\<close>

definition handleSearchChange :: "string \<Rightarrow> State \<Rightarrow> State \<times> Effect list" where
  "handleSearchChange text st = (st\<lparr>searchTerm := text\<rparr>, [])"

subsection \<open>Reading the effects\<close>

fun toasts :: "Effect list \<Rightarrow> Toast list" where
  "toasts [] = []"
| "toasts (ShowToast t # es) = t # toasts es"
| "toasts (e # es) = toasts es"

fun navigations :: "Effect list \<Rightarrow> Effect list" where
  "navigations [] = []"
| "navigations (WindowOpen url target # es) = WindowOpen url target # navigations es"
| "navigations (LocationHref url # es) = LocationHref url # navigations es"
| "navigations (e # es) = navigations es"

subsection \<open>Objects and references\<close>

text \<open>
  In the program a doctor is an object, and the \<^verbatim>\<open>doctors\<close> prop is an array of references
  to such objects; both belong to the caller, and \<^verbatim>\<open>callingDoctor\<close> holds one of these
  references. To say that the component only reads them, the objects are put in a
  store: a reference is an index into the store, and allocation appends to it. Reading
  through a reference that holds no object of the expected kind has no result
  (\<open>None\<close>); the types of the program exclude it.
\<close>

type_synonym ref = nat

datatype Obj = DoctorObj Doctor | ArrayObj "ref list"

type_synonym Heap = "Obj list"

definition getDoctor :: "Heap \<Rightarrow> ref \<Rightarrow> Doctor option" where
  "getDoctor h r =
     (if r < length h then (case h ! r of DoctorObj d \<Rightarrow> Some d | ArrayObj rs \<Rightarrow> None)
      else None)"

definition getArray :: "Heap \<Rightarrow> ref \<Rightarrow> ref list option" where
  "getArray h r =
     (if r < length h then (case h ! r of DoctorObj d \<Rightarrow> None | ArrayObj rs \<Rightarrow> Some rs)
      else None)"

definition alloc :: "Heap \<Rightarrow> Obj \<Rightarrow> Heap \<times> ref" where
  "alloc h v = (h @ [v], length h)"

text \<open>
  What an assignment to an object behind a reference would be. No handler of the
  component uses it.
\<close>

definition store :: "Heap \<Rightarrow> ref \<Rightarrow> Obj \<Rightarrow> Heap" where
  "store h r v = h[r := v]"

text \<open>
  The state cells and the handlers once more, over references (their names end in
  \<open>_r\<close>): \<^verbatim>\<open>callingDoctor\<close> is the reference that was passed to \<^verbatim>\<open>setCallingDoctor\<close>,
  every field of a doctor is read through the store, and every handler returns the
  store it leaves behind.
\<close>

record State_r =
  searchTerm_r :: string
  callingDoctor_r :: "ref option"
  showCallDialog_r :: bool

definition initialState_r :: State_r where
  "initialState_r = \<lparr>searchTerm_r = [], callingDoctor_r = None, showCallDialog_r = False\<rparr>"

text \<open>
  \<^verbatim>\<open>doctors.filter(...)\<close> reads the elements of the array it is applied to and the
  \<^verbatim>\<open>name\<close> and \<^verbatim>\<open>specialty\<close> of each doctor, and returns a newly allocated array.
\<close>

fun filterLoop_r :: "Heap \<Rightarrow> (Doctor \<Rightarrow> bool) \<Rightarrow> ref list \<Rightarrow> ref list \<Rightarrow> ref list option" where
  "filterLoop_r h p [] kept = Some kept"
| "filterLoop_r h p (r # rs) kept =
     (case getDoctor h r of
        None \<Rightarrow> None
      | Some doctor \<Rightarrow> filterLoop_r h p rs (if p doctor then kept @ [r] else kept))"

definition filteredDoctors_r :: "Heap \<Rightarrow> ref \<Rightarrow> string \<Rightarrow> (Heap \<times> ref) option" where
  "filteredDoctors_r h doctors term =
     (case getArray h doctors of
        None \<Rightarrow> None
      | Some rs \<Rightarrow>
          (case filterLoop_r h
                  (\<lambda>doctor. includes_str (toLowerCase (name doctor)) (toLowerCase term) \<or>
                            includes_str (toLowerCase (specialty doctor)) (toLowerCase term))
                  rs [] of
             None \<Rightarrow> None
           | Some kept \<Rightarrow> Some (alloc h (ArrayObj kept))))"

definition handleCallDoctor_r ::
  "Heap \<Rightarrow> ref \<Rightarrow> State_r \<Rightarrow> (Heap \<times> State_r \<times> Effect list) option" where
  "handleCallDoctor_r h doctor st =
     (case getDoctor h doctor of
        None \<Rightarrow> None
      | Some d \<Rightarrow>
          (if availability d \<noteq> Available then
             Some (h, st,
               [StopPropagation,
                ShowToast
                  \<lparr>title = ''Doctor Unavailable'',
                   description =
                     name d @ '' is currently '' @
                     toLowerCase (availabilityString (availability d)) @
                     ''. Please try again later.'',
                   variant = Some ''destructive''\<rparr>])
           else
             Some (h, st\<lparr>callingDoctor_r := Some doctor, showCallDialog_r := True\<rparr>,
               [StopPropagation])))"

definition handleWhatsAppCall_r ::
  "Heap \<Rightarrow> State_r \<Rightarrow> (Heap \<times> State_r \<times> Effect list) option" where
  "handleWhatsAppCall_r h st =
     (case callingDoctor_r st of
        None \<Rightarrow> Some (h, st, [])
      | Some doctor \<Rightarrow>
          (case getDoctor h doctor of
             None \<Rightarrow> None
           | Some d \<Rightarrow>
               Some (h, st\<lparr>showCallDialog_r := False\<rparr>,
                 [WindowOpen (''https://wa.me/'' @ phone d) ''_blank''])))"

definition handleDirectCall_r ::
  "string \<Rightarrow> Heap \<Rightarrow> State_r \<Rightarrow> (Heap \<times> State_r \<times> Effect list) option" where
  "handleDirectCall_r userAgent h st =
     (case callingDoctor_r st of
        None \<Rightarrow> Some (h, st, [])
      | Some doctor \<Rightarrow>
          (if isMobile userAgent then
             (case getDoctor h doctor of
                None \<Rightarrow> None
              | Some d \<Rightarrow>
                  Some (h, st\<lparr>showCallDialog_r := False\<rparr>, [LocationHref (''tel:'' @ phone d)]))
           else
             Some (h, st\<lparr>showCallDialog_r := False\<rparr>,
               [ShowToast
                  \<lparr>title = ''Desktop Detected'',
                   description = ''Direct calling is only available on mobile devices.'',
                   variant = None\<rparr>])))"

definition handleCancel_r :: "Heap \<Rightarrow> State_r \<Rightarrow> (Heap \<times> State_r \<times> Effect list) option" where
  "handleCancel_r h st = Some (h, st\<lparr>showCallDialog_r := False\<rparr>, [])"

definition handleSearchChange_r ::
  "string \<Rightarrow> Heap \<Rightarrow> State_r \<Rightarrow> (Heap \<times> State_r \<times> Effect list) option" where
  "handleSearchChange_r text h st = Some (h, st\<lparr>searchTerm_r := text\<rparr>, [])"

subsection \<open>The component over time\<close>

text \<open>
  The component with what it was given and what it has done: the store, the reference
  to the \<^verbatim>\<open>doctors\<close> array, the filtered array of the latest render, the state cells and
  the effects performed so far. An event is one of the operations on the component.
  \<open>CallDoctor i\<close> is a contact attempt on row \<open>i\<close> of the rendered list, that is
  \<^verbatim>\<open>handleCallDoctor\<close> applied to that row's doctor; \<open>ClickCall i\<close> is a click on the call
  button of row \<open>i\<close>, which is disabled, and then does nothing, unless the doctor is
  available. A render follows every event, and \<open>Render\<close> is a render at any other time
  (the parent rendering again); every render filters anew.
\<close>

record Component =
  heap :: Heap
  doctors :: ref
  rendered :: ref
  cells :: State_r
  performed :: "Effect list"

datatype Event =
    SearchChange string
  | CallDoctor nat
  | ClickCall nat
  | WhatsAppCall
  | DirectCall
  | Cancel
  | Render

definition render :: "Component \<Rightarrow> Component option" where
  "render c =
     (case filteredDoctors_r (heap c) (doctors c) (searchTerm_r (cells c)) of
        None \<Rightarrow> None
      | Some (h, filtered) \<Rightarrow> Some (c\<lparr>heap := h, rendered := filtered\<rparr>))"

fun dispatch ::
  "string \<Rightarrow> Component \<Rightarrow> Event \<Rightarrow> (Heap \<times> State_r \<times> Effect list) option" where
  "dispatch userAgent c (SearchChange text) = handleSearchChange_r text (heap c) (cells c)"
| "dispatch userAgent c (CallDoctor i) =
     (case getArray (heap c) (rendered c) of
        None \<Rightarrow> None
      | Some shown \<Rightarrow>
          (if i < length shown then handleCallDoctor_r (heap c) (shown ! i) (cells c)
           else Some (heap c, cells c, [])))"
| "dispatch userAgent c (ClickCall i) =
     (case getArray (heap c) (rendered c) of
        None \<Rightarrow> None
      | Some shown \<Rightarrow>
          (if i < length shown then
             (case getDoctor (heap c) (shown ! i) of
                None \<Rightarrow> None
              | Some d \<Rightarrow>
                  (if availability d \<noteq> Available then Some (heap c, cells c, [])
                   else handleCallDoctor_r (heap c) (shown ! i) (cells c)))
           else Some (heap c, cells c, [])))"
| "dispatch userAgent c WhatsAppCall = handleWhatsAppCall_r (heap c) (cells c)"
| "dispatch userAgent c DirectCall = handleDirectCall_r userAgent (heap c) (cells c)"
| "dispatch userAgent c Cancel = handleCancel_r (heap c) (cells c)"
| "dispatch userAgent c Render = Some (heap c, cells c, [])"

definition step :: "string \<Rightarrow> Component \<Rightarrow> Event \<Rightarrow> Component option" where
  "step userAgent c ev =
     (case dispatch userAgent c ev of
        None \<Rightarrow> None
      | Some (h, st, es) \<Rightarrow> render (c\<lparr>heap := h, cells := st, performed := performed c @ es\<rparr>))"

fun run :: "string \<Rightarrow> Component \<Rightarrow> Event list \<Rightarrow> Component option" where
  "run userAgent c [] = Some c"
| "run userAgent c (ev # evs) =
     (case step userAgent c ev of None \<Rightarrow> None | Some c' \<Rightarrow> run userAgent c' evs)"

text \<open>
  What the types of the program guarantee: the \<^verbatim>\<open>doctors\<close> array and the rendered
  array hold references to doctors, and so does \<^verbatim>\<open>callingDoctor\<close> when it is set.
\<close>

definition isDoctor :: "Heap \<Rightarrow> ref \<Rightarrow> bool" where
  "isDoctor h r = (case getDoctor h r of None \<Rightarrow> False | Some d \<Rightarrow> True)"

definition doctorArray :: "Heap \<Rightarrow> ref \<Rightarrow> bool" where
  "doctorArray h a = (case getArray h a of None \<Rightarrow> False | Some rs \<Rightarrow> list_all (isDoctor h) rs)"

definition targetValid :: "Heap \<Rightarrow> State_r \<Rightarrow> bool" where
  "targetValid h st = (case callingDoctor_r st of None \<Rightarrow> True | Some r \<Rightarrow> isDoctor h r)"

definition wellFormed :: "Component \<Rightarrow> bool" where
  "wellFormed c =
     (doctorArray (heap c) (doctors c) \<and> doctorArray (heap c) (rendered c) \<and>
      targetValid (heap c) (cells c))"

text \<open>The first render, with the initial values of the state cells.\<close>

definition mount :: "Heap \<Rightarrow> ref \<Rightarrow> Component option" where
  "mount h given =
     render \<lparr>heap = h, doctors = given, rendered = given, cells = initialState_r,
             performed = []\<rparr>"

text \<open>
  From references back to values: the state over references, read in a store, as a
  state of the handlers of the first part.
\<close>

definition abstractState :: "Heap \<Rightarrow> State_r \<Rightarrow> State" where
  "abstractState h st =
     \<lparr>searchTerm = searchTerm_r st,
      callingDoctor = (case callingDoctor_r st of None \<Rightarrow> None | Some r \<Rightarrow> getDoctor h r),
      showCallDialog = showCallDialog_r st\<rparr>"

definition abstractResult :: "Heap \<times> State_r \<times> Effect list \<Rightarrow> State \<times> Effect list" where
  "abstractResult res = (case res of (h, st, es) \<Rightarrow> (abstractState h st, es))"

subsection \<open>Sample data\<close>

definition drRao :: Doctor where
  "drRao =
     \<lparr>id' = ''1'', name = ''Dr. Asha Rao'', specialty = ''Cardiology'',
      availability = Available, image' = ''/rao.png'', rating = 4, experience = ''12 years'',
      phone = ''15551234567''\<rparr>"

definition drMehta :: Doctor where
  "drMehta =
     \<lparr>id' = ''2'', name = ''Dr. Kiran Mehta'', specialty = ''Dermatology'',
      availability = Busy, image' = ''/mehta.png'', rating = 5, experience = ''8 years'',
      phone = ''15557654321''\<rparr>"

definition drIyer :: Doctor where
  "drIyer =
     \<lparr>id' = ''3'', name = ''Dr. Carla Iyer'', specialty = ''Pediatrics'',
      availability = Away, image' = ''/iyer.png'', rating = 3, experience = ''20 years'',
      phone = ''15550001111''\<rparr>"

text \<open>The state after the call button of an available doctor was used.\<close>

definition dialogOpen :: State where
  "dialogOpen = fst (handleCallDoctor drRao initialState)"

definition desktopAgent :: string where
  "desktopAgent = ''Mozilla/5.0 (X11; Linux x86_64) Gecko/20100101 Firefox/120.0''"

definition phoneAgent :: string where
  "phoneAgent = ''Mozilla/5.0 (Linux; ANDROID 14; Pixel 8) Mobile Safari/537.36''"

text \<open>
  A store with three doctors and the array of them at address 3, the component after
  its first render on that array, and a sequence of events.
\<close>

definition sampleHeap :: Heap where
  "sampleHeap = [DoctorObj drRao, DoctorObj drMehta, DoctorObj drIyer, ArrayObj [0, 1, 2]]"

definition sampleComponent :: Component where
  "sampleComponent =
     \<lparr>heap = sampleHeap @ [ArrayObj [0, 1, 2]], doctors = 3, rendered = 4,
      cells = initialState_r, performed = []\<rparr>"

definition sampleEvents :: "Event list" where
  "sampleEvents =
     [SearchChange ''dr'', ClickCall 1, CallDoctor 1, ClickCall 0, DirectCall,
      SearchChange ''CAR'', Render, CallDoctor 1, CallDoctor 0, WhatsAppCall, Cancel]"

section \<open>Properties\<close>

subsection \<open>String search\<close>

lemma stringIndexOf_Some:
  "stringIndexOf s v i = Some k \<Longrightarrow>
     i \<le> k \<and> k + length v \<le> length s \<and> take (length v) (drop k s) = v"
proof (induction s v i rule: stringIndexOf.induct)
  case (1 s v i)
  show ?case
  proof (cases "length s < i + length v")
    case True
    with "1.prems" show ?thesis by simp
  next
    case fits: False
    show ?thesis
    proof (cases "take (length v) (drop i s) = v")
      case True
      with fits "1.prems" show ?thesis by auto
    next
      case False
      with fits "1.prems" have "stringIndexOf s v (Suc i) = Some k" by simp
      from "1.IH" [OF fits False this] show ?thesis by simp
    qed
  qed
qed

lemma stringIndexOf_None:
  "stringIndexOf s v i = None \<Longrightarrow> i \<le> j \<Longrightarrow> j + length v \<le> length s \<Longrightarrow>
     take (length v) (drop j s) \<noteq> v"
proof (induction s v i rule: stringIndexOf.induct)
  case (1 s v i)
  from "1.prems" have fits: "\<not> length s < i + length v" by simp
  show ?case
  proof (cases "take (length v) (drop i s) = v")
    case True
    with fits "1.prems"(1) show ?thesis by simp
  next
    case False
    with fits "1.prems"(1) have none: "stringIndexOf s v (Suc i) = None" by simp
    show ?thesis
    proof (cases "j = i")
      case True
      with False show ?thesis by simp
    next
      case False
      with "1.prems"(2) have "Suc i \<le> j" by simp
      from "1.IH" [OF fits \<open>take (length v) (drop i s) \<noteq> v\<close> none this "1.prems"(3)]
      show ?thesis .
    qed
  qed
qed

lemma sublist_iff_occurs:
  "sublist v s \<longleftrightarrow> (\<exists>j. j + length v \<le> length s \<and> take (length v) (drop j s) = v)"
proof
  assume "sublist v s"
  then obtain ps ss where s: "s = ps @ v @ ss" by (auto simp: sublist_def)
  have "length ps + length v \<le> length s \<and> take (length v) (drop (length ps) s) = v"
    by (simp add: s)
  then show "\<exists>j. j + length v \<le> length s \<and> take (length v) (drop j s) = v" by blast
next
  assume "\<exists>j. j + length v \<le> length s \<and> take (length v) (drop j s) = v"
  then obtain j where j: "take (length v) (drop j s) = v" by blast
  have "drop j s = take (length v) (drop j s) @ drop (length v) (drop j s)"
    by (simp only: append_take_drop_id)
  with j have "drop j s = v @ drop (length v) (drop j s)" by simp
  moreover have "s = take j s @ drop j s" by simp
  ultimately have "s = take j s @ v @ drop (length v) (drop j s)" by metis
  then show "sublist v s" unfolding sublist_def by blast
qed

lemma includes_str_iff_sublist: "includes_str s v \<longleftrightarrow> sublist v s"
proof (cases "stringIndexOf s v 0")
  case None
  then have "\<And>j. j + length v \<le> length s \<Longrightarrow> take (length v) (drop j s) \<noteq> v"
    using stringIndexOf_None [of s v 0] by simp
  then have "\<not> sublist v s" by (auto simp: sublist_iff_occurs)
  with None show ?thesis by (simp add: includes_str_def)
next
  case (Some k)
  from stringIndexOf_Some [OF this] have "sublist v s"
    by (auto simp: sublist_iff_occurs)
  with Some show ?thesis by (simp add: includes_str_def)
qed

lemma includes_str_empty: "includes_str s []"
  by (simp add: includes_str_iff_sublist)

subsection \<open>The filter loop\<close>

lemma filterLoop_eq: "filterLoop p xs kept = kept @ filter p xs"
  by (induction xs arbitrary: kept) simp_all

lemma array_filter_eq: "array_filter p xs = filter p xs"
  by (simp add: array_filter_def filterLoop_eq)

text \<open>
  Claim C1. For every list of doctors \<open>L\<close> and every search string \<open>s\<close>, the filtered
  list consists of exactly the doctors of \<open>L\<close> for which the lower-cased \<open>s\<close> is a
  substring of the lower-cased name or of the lower-cased specialty, in the order they
  have in \<open>L\<close>.
\<close>

theorem filteredDoctors_spec:
  "filteredDoctors L s =
     filter (\<lambda>c. sublist (toLowerCase s) (toLowerCase (name c)) \<or>
                 sublist (toLowerCase s) (toLowerCase (specialty c))) L"
  by (simp add: filteredDoctors_def array_filter_eq includes_str_iff_sublist)

lemma filteredDoctors_sample:
  "filteredDoctors [drRao, drMehta, drIyer] ''CAR'' = [drRao, drIyer]"
  by code_simp

text \<open>
  Claim C8. Filtering with the empty search string returns the whole input list, in
  the same order.
\<close>

theorem filteredDoctors_empty_term: "filteredDoctors L [] = L"
  by (simp add: filteredDoctors_def array_filter_eq toLowerCase_def includes_str_empty)

subsection \<open>The platform test\<close>

lemma literalAt_iff_prefix:
  "literalAt p s \<longleftrightarrow> prefix (map canonicalize p) (map canonicalize s)"
  by (induction p s rule: literalAt.induct) simp_all

lemma regexTest_iff:
  "regexTest alts s \<longleftrightarrow>
     (\<exists>a \<in> set alts. sublist (map canonicalize a) (map canonicalize s))"
proof (induction s)
  case Nil
  show ?case by (auto simp: list_ex_iff literalAt_iff_prefix)
next
  case (Cons c cs)
  show ?case
    by (auto simp: Cons.IH list_ex_iff literalAt_iff_prefix sublist_Cons_right)
qed

lemma isMobile_iff:
  "isMobile userAgent \<longleftrightarrow>
     (\<exists>p \<in> set mobilePlatforms. sublist (map canonicalize p) (map canonicalize userAgent))"
  by (simp add: isMobile_def regexTest_iff)

lemma isMobile_desktopAgent: "\<not> isMobile desktopAgent"
  by code_simp

lemma isMobile_phoneAgent: "isMobile phoneAgent"
  by code_simp

lemma dialogOpen_eq:
  "dialogOpen = \<lparr>searchTerm = [], callingDoctor = Some drRao, showCallDialog = True\<rparr>"
  by (simp add: dialogOpen_def handleCallDoctor_def initialState_def drRao_def)

subsection \<open>Contact attempts\<close>

lemma sublist_inner: "sublist v (before @ between @ v @ after)"
proof -
  have "before @ between @ v @ after = (before @ between) @ v @ after" by simp
  then show ?thesis unfolding sublist_def by blast
qed

text \<open>
  Claim C2. A contact attempt on a doctor who is not available (busy or away) produces
  exactly one toast; it is destructive, and its message contains the doctor's name and
  the lower-cased availability. The state is returned as it was, so a closed dialog
  (no target, not shown) stays closed. No navigation happens.
\<close>

theorem handleCallDoctor_unavailable:
  assumes "availability d \<noteq> Available"
  shows "fst (handleCallDoctor d st) = st \<and>
         length (toasts (snd (handleCallDoctor d st))) = 1 \<and>
         list_all
           (\<lambda>t. variant t = Some ''destructive'' \<and>
                sublist (name d) (description t) \<and>
                sublist (toLowerCase (availabilityString (availability d))) (description t))
           (toasts (snd (handleCallDoctor d st))) \<and>
         navigations (snd (handleCallDoctor d st)) = []"
proof -
  let ?low = "toLowerCase (availabilityString (availability d))"
  let ?msg = "name d @ '' is currently '' @ ?low @ ''. Please try again later.''"
  have r: "handleCallDoctor d st =
      (st, [StopPropagation,
            ShowToast \<lparr>title = ''Doctor Unavailable'', description = ?msg,
                       variant = Some ''destructive''\<rparr>])"
    using assms by (simp add: handleCallDoctor_def)
  have n: "sublist (name d) ?msg"
    by (rule sublist_append_rightI)
  have a: "sublist ?low ?msg"
    by (rule sublist_inner)
  from n a show ?thesis by (simp add: r)
qed

theorem handleCallDoctor_unavailable_witness:
  "availability drMehta \<noteq> Available \<and>
   callingDoctor initialState = None \<and> \<not> showCallDialog initialState \<and>
   fst (handleCallDoctor drMehta initialState) = initialState \<and>
   length (toasts (snd (handleCallDoctor drMehta initialState))) = 1 \<and>
   list_all
     (\<lambda>t. variant t = Some ''destructive'' \<and>
          sublist (name drMehta) (description t) \<and>
          sublist (toLowerCase (availabilityString (availability drMehta))) (description t))
     (toasts (snd (handleCallDoctor drMehta initialState))) \<and>
   navigations (snd (handleCallDoctor drMehta initialState)) = []"
proof -
  have h: "availability drMehta \<noteq> Available" by (simp add: drMehta_def)
  have c: "callingDoctor initialState = None \<and> \<not> showCallDialog initialState"
    by (simp add: initialState_def)
  from h c handleCallDoctor_unavailable [OF h, of initialState] show ?thesis by blast
qed

lemma handleCallDoctor_drMehta:
  "map description (toasts (snd (handleCallDoctor drMehta initialState))) =
     [''Dr. Kiran Mehta is currently busy. Please try again later.'']"
  by code_simp

text \<open>
  Claim C3. A contact attempt on an available doctor makes that doctor the dialog's
  target and shows the dialog; no toast is emitted (and nothing is navigated to).
\<close>

theorem handleCallDoctor_available:
  assumes "availability d = Available"
  shows "callingDoctor (fst (handleCallDoctor d st)) = Some d \<and>
         showCallDialog (fst (handleCallDoctor d st)) \<and>
         searchTerm (fst (handleCallDoctor d st)) = searchTerm st \<and>
         toasts (snd (handleCallDoctor d st)) = [] \<and>
         navigations (snd (handleCallDoctor d st)) = []"
  using assms by (simp add: handleCallDoctor_def)

theorem handleCallDoctor_available_witness:
  "availability drRao = Available \<and>
   callingDoctor (fst (handleCallDoctor drRao initialState)) = Some drRao \<and>
   showCallDialog (fst (handleCallDoctor drRao initialState)) \<and>
   searchTerm (fst (handleCallDoctor drRao initialState)) = searchTerm initialState \<and>
   toasts (snd (handleCallDoctor drRao initialState)) = [] \<and>
   navigations (snd (handleCallDoctor drRao initialState)) = []"
proof -
  have h: "availability drRao = Available" by (simp add: drRao_def)
  from h handleCallDoctor_available [OF h, of initialState] show ?thesis by blast
qed

subsection \<open>The actions of the dialog\<close>

text \<open>
  Claim C4, as amended. With the dialog open on a doctor whose phone string is \<open>p\<close>,
  the messaging action performs exactly one effect, the opening of
  \<^verbatim>\<open>https://wa.me/\<close> followed by \<open>p\<close> as it is, in a new browsing context
  (\<^verbatim>\<open>_blank\<close>), and hides the dialog. The target stays set: no handler clears it.
\<close>

theorem handleWhatsAppCall_open:
  assumes "callingDoctor st = Some d" and "showCallDialog st"
  shows "snd (handleWhatsAppCall st) = [WindowOpen (''https://wa.me/'' @ phone d) ''_blank''] \<and>
         \<not> showCallDialog (fst (handleWhatsAppCall st)) \<and>
         callingDoctor (fst (handleWhatsAppCall st)) = Some d \<and>
         searchTerm (fst (handleWhatsAppCall st)) = searchTerm st"
  using assms by (simp add: handleWhatsAppCall_def)

theorem handleWhatsAppCall_open_witness:
  "callingDoctor dialogOpen = Some drRao \<and> showCallDialog dialogOpen \<and>
   snd (handleWhatsAppCall dialogOpen) =
     [WindowOpen (''https://wa.me/'' @ phone drRao) ''_blank''] \<and>
   \<not> showCallDialog (fst (handleWhatsAppCall dialogOpen)) \<and>
   callingDoctor (fst (handleWhatsAppCall dialogOpen)) = Some drRao \<and>
   searchTerm (fst (handleWhatsAppCall dialogOpen)) = searchTerm dialogOpen"
proof -
  have h1: "callingDoctor dialogOpen = Some drRao" by (simp add: dialogOpen_eq)
  have h2: "showCallDialog dialogOpen" by (simp add: dialogOpen_eq)
  from h1 h2 handleWhatsAppCall_open [OF h1 h2] show ?thesis by blast
qed

text \<open>
  The claim as it was stated asks for the closed state, with no target, afterwards.
  From the open dialog on the sample doctor the link is the expected one, and the
  target is still there.
\<close>

theorem handleWhatsAppCall_keeps_target:
  "callingDoctor dialogOpen = Some drRao \<and> showCallDialog dialogOpen \<and>
   snd (handleWhatsAppCall dialogOpen) = [WindowOpen ''https://wa.me/15551234567'' ''_blank''] \<and>
   \<not> (callingDoctor (fst (handleWhatsAppCall dialogOpen)) = None \<and>
      \<not> showCallDialog (fst (handleWhatsAppCall dialogOpen)))"
  by (simp add: dialogOpen_eq handleWhatsAppCall_def drRao_def)

text \<open>
  Claim C5, as amended. With the dialog open, the direct-call action on a user agent
  that contains none of the mobile platform names (\<open>isMobile_iff\<close>: in whatever letter
  case, as the expression's \<^verbatim>\<open>i\<close> flag has it) emits exactly
  one toast, without a variant, saying that direct calling is only available on mobile
  devices; it navigates nowhere and hides the dialog. The target stays set.
\<close>

theorem handleDirectCall_desktop:
  assumes "callingDoctor st = Some d" and "showCallDialog st" and "\<not> isMobile userAgent"
  shows "length (toasts (snd (handleDirectCall userAgent st))) = 1 \<and>
         list_all
           (\<lambda>t. variant t = None \<and>
                description t = ''Direct calling is only available on mobile devices.'')
           (toasts (snd (handleDirectCall userAgent st))) \<and>
         navigations (snd (handleDirectCall userAgent st)) = [] \<and>
         \<not> showCallDialog (fst (handleDirectCall userAgent st)) \<and>
         callingDoctor (fst (handleDirectCall userAgent st)) = Some d \<and>
         searchTerm (fst (handleDirectCall userAgent st)) = searchTerm st"
  using assms by (simp add: handleDirectCall_def)

theorem handleDirectCall_desktop_witness:
  "callingDoctor dialogOpen = Some drRao \<and> showCallDialog dialogOpen \<and>
   \<not> isMobile desktopAgent \<and>
   length (toasts (snd (handleDirectCall desktopAgent dialogOpen))) = 1 \<and>
   list_all
     (\<lambda>t. variant t = None \<and>
          description t = ''Direct calling is only available on mobile devices.'')
     (toasts (snd (handleDirectCall desktopAgent dialogOpen))) \<and>
   navigations (snd (handleDirectCall desktopAgent dialogOpen)) = [] \<and>
   \<not> showCallDialog (fst (handleDirectCall desktopAgent dialogOpen)) \<and>
   callingDoctor (fst (handleDirectCall desktopAgent dialogOpen)) = Some drRao \<and>
   searchTerm (fst (handleDirectCall desktopAgent dialogOpen)) = searchTerm dialogOpen"
proof -
  have h1: "callingDoctor dialogOpen = Some drRao" by (simp add: dialogOpen_eq)
  have h2: "showCallDialog dialogOpen" by (simp add: dialogOpen_eq)
  note h3 = isMobile_desktopAgent
  from h1 h2 h3 handleDirectCall_desktop [OF h1 h2 h3] show ?thesis by blast
qed

text \<open>
  The claim as it was stated ends in the closed state, with no target. On a desktop
  user agent, from the open dialog on the sample doctor, the target is still there.
\<close>

theorem handleDirectCall_desktop_keeps_target:
  "callingDoctor dialogOpen = Some drRao \<and> showCallDialog dialogOpen \<and>
   \<not> isMobile desktopAgent \<and>
   \<not> (callingDoctor (fst (handleDirectCall desktopAgent dialogOpen)) = None \<and>
      \<not> showCallDialog (fst (handleDirectCall desktopAgent dialogOpen)))"
  by (simp add: dialogOpen_eq handleDirectCall_def isMobile_desktopAgent)

text \<open>
  Claim C6, as amended. With the dialog open on a doctor whose phone string is \<open>p\<close>,
  the direct-call action on a user agent that matches a mobile platform name performs
  exactly one effect, the navigation to \<^verbatim>\<open>tel:\<close> followed by \<open>p\<close>; there is no toast,
  and the dialog is hidden. The target stays set.
\<close>

theorem handleDirectCall_mobile:
  assumes "callingDoctor st = Some d" and "showCallDialog st" and "isMobile userAgent"
  shows "snd (handleDirectCall userAgent st) = [LocationHref (''tel:'' @ phone d)] \<and>
         toasts (snd (handleDirectCall userAgent st)) = [] \<and>
         \<not> showCallDialog (fst (handleDirectCall userAgent st)) \<and>
         callingDoctor (fst (handleDirectCall userAgent st)) = Some d \<and>
         searchTerm (fst (handleDirectCall userAgent st)) = searchTerm st"
  using assms by (simp add: handleDirectCall_def)

theorem handleDirectCall_mobile_witness:
  "callingDoctor dialogOpen = Some drRao \<and> showCallDialog dialogOpen \<and>
   isMobile phoneAgent \<and>
   snd (handleDirectCall phoneAgent dialogOpen) = [LocationHref (''tel:'' @ phone drRao)] \<and>
   toasts (snd (handleDirectCall phoneAgent dialogOpen)) = [] \<and>
   \<not> showCallDialog (fst (handleDirectCall phoneAgent dialogOpen)) \<and>
   callingDoctor (fst (handleDirectCall phoneAgent dialogOpen)) = Some drRao \<and>
   searchTerm (fst (handleDirectCall phoneAgent dialogOpen)) = searchTerm dialogOpen"
proof -
  have h1: "callingDoctor dialogOpen = Some drRao" by (simp add: dialogOpen_eq)
  have h2: "showCallDialog dialogOpen" by (simp add: dialogOpen_eq)
  note h3 = isMobile_phoneAgent
  from h1 h2 h3 handleDirectCall_mobile [OF h1 h2 h3] show ?thesis by blast
qed

text \<open>
  The claim as it was stated ends in the closed state, with no target. On a phone's
  user agent, from the open dialog on the sample doctor, the navigation is the expected
  one and the target is still there.
\<close>

theorem handleDirectCall_mobile_keeps_target:
  "callingDoctor dialogOpen = Some drRao \<and> showCallDialog dialogOpen \<and>
   isMobile phoneAgent \<and>
   snd (handleDirectCall phoneAgent dialogOpen) = [LocationHref ''tel:15551234567''] \<and>
   \<not> (callingDoctor (fst (handleDirectCall phoneAgent dialogOpen)) = None \<and>
      \<not> showCallDialog (fst (handleDirectCall phoneAgent dialogOpen)))"
  by (simp add: dialogOpen_eq handleDirectCall_def isMobile_phoneAgent drRao_def)

text \<open>
  Claim C7, as amended. With the dialog open, cancel hides the dialog and performs no
  effect at all: no navigation and no toast. The target stays set.
\<close>

theorem handleCancel_open:
  assumes "callingDoctor st = Some d" and "showCallDialog st"
  shows "snd (handleCancel st) = [] \<and>
         \<not> showCallDialog (fst (handleCancel st)) \<and>
         callingDoctor (fst (handleCancel st)) = Some d \<and>
         searchTerm (fst (handleCancel st)) = searchTerm st"
  using assms by (simp add: handleCancel_def)

theorem handleCancel_open_witness:
  "callingDoctor dialogOpen = Some drRao \<and> showCallDialog dialogOpen \<and>
   snd (handleCancel dialogOpen) = [] \<and>
   \<not> showCallDialog (fst (handleCancel dialogOpen)) \<and>
   callingDoctor (fst (handleCancel dialogOpen)) = Some drRao \<and>
   searchTerm (fst (handleCancel dialogOpen)) = searchTerm dialogOpen"
proof -
  have h1: "callingDoctor dialogOpen = Some drRao" by (simp add: dialogOpen_eq)
  have h2: "showCallDialog dialogOpen" by (simp add: dialogOpen_eq)
  from h1 h2 handleCancel_open [OF h1 h2] show ?thesis by blast
qed

text \<open>
  The claim as it was stated ends in the closed state, with no target. After cancel,
  from the open dialog on the sample doctor, the target is still there.
\<close>

theorem handleCancel_keeps_target:
  "callingDoctor dialogOpen = Some drRao \<and> showCallDialog dialogOpen \<and>
   \<not> (callingDoctor (fst (handleCancel dialogOpen)) = None \<and>
      \<not> showCallDialog (fst (handleCancel dialogOpen)))"
  by (simp add: dialogOpen_eq handleCancel_def)

text \<open>
  Claim C10. With no target set, the messaging action and the direct-call action do
  nothing: no effect is performed and the state is returned as it was, whatever the
  user agent is.
\<close>

theorem actions_without_target:
  assumes "callingDoctor st = None"
  shows "handleWhatsAppCall st = (st, []) \<and> handleDirectCall userAgent st = (st, [])"
  using assms by (simp add: handleWhatsAppCall_def handleDirectCall_def)

theorem actions_without_target_witness:
  "callingDoctor initialState = None \<and>
   handleWhatsAppCall initialState = (initialState, []) \<and>
   handleDirectCall phoneAgent initialState = (initialState, [])"
proof -
  have h: "callingDoctor initialState = None" by (simp add: initialState_def)
  from h actions_without_target [OF h, of phoneAgent] show ?thesis by blast
qed

subsection \<open>The doctors are only read\<close>

text \<open>
  A store that grows by allocation keeps every object it had: the old store is a
  prefix of the new one. An assignment that changes an object is excluded by that.
\<close>

lemma getDoctor_prefix: "prefix h h' \<Longrightarrow> getDoctor h r = Some d \<Longrightarrow> getDoctor h' r = Some d"
  by (auto simp: getDoctor_def prefix_def nth_append split: if_splits)

lemma getArray_prefix: "prefix h h' \<Longrightarrow> getArray h r = Some rs \<Longrightarrow> getArray h' r = Some rs"
  by (auto simp: getArray_def prefix_def nth_append split: if_splits)

lemma isDoctor_prefix: "prefix h h' \<Longrightarrow> isDoctor h r \<Longrightarrow> isDoctor h' r"
  by (auto simp: isDoctor_def split: option.splits dest: getDoctor_prefix)

lemma doctorArray_prefix:
  assumes "prefix h h'" and "doctorArray h a"
  shows "doctorArray h' a"
proof -
  from assms(2) obtain rs where rs: "getArray h a = Some rs" "list_all (isDoctor h) rs"
    by (auto simp: doctorArray_def split: option.splits)
  from rs(2) isDoctor_prefix [OF assms(1)] have "list_all (isDoctor h') rs"
    by (auto simp: list_all_iff)
  with getArray_prefix [OF assms(1) rs(1)] show ?thesis by (simp add: doctorArray_def)
qed

lemma targetValid_prefix: "prefix h h' \<Longrightarrow> targetValid h st \<Longrightarrow> targetValid h' st"
  by (auto simp: targetValid_def split: option.splits dest: isDoctor_prefix)

lemma store_changes:
  assumes "r < length h" and "v \<noteq> h ! r"
  shows "\<not> prefix h (store h r v)"
proof
  assume "prefix h (store h r v)"
  then obtain zs where zs: "h[r := v] = h @ zs" by (auto simp: store_def prefix_def)
  then have "length (h[r := v]) = length (h @ zs)" by simp
  then have "zs = []" by simp
  with zs have "h[r := v] ! r = h ! r" by simp
  with assms show False by simp
qed

text \<open>Filtering allocates one array and reads the rest.\<close>

lemma filterLoop_r_total:
  "list_all (isDoctor h) rs \<Longrightarrow> list_all (isDoctor h) kept \<Longrightarrow>
     \<exists>kept'. filterLoop_r h p rs kept = Some kept' \<and> list_all (isDoctor h) kept'"
proof (induction rs arbitrary: kept)
  case Nil
  then show ?case by simp
next
  case (Cons r rs)
  from Cons.prems obtain d where d: "getDoctor h r = Some d"
    by (auto simp: isDoctor_def split: option.splits)
  from Cons.prems have "list_all (isDoctor h) (if p d then kept @ [r] else kept)" by simp
  with Cons.prems Cons.IH [of "if p d then kept @ [r] else kept"] d show ?case by simp
qed

lemma filteredDoctors_r_total:
  assumes "doctorArray h a"
  shows "\<exists>kept. filteredDoctors_r h a term = Some (h @ [ArrayObj kept], length h) \<and>
           list_all (isDoctor h) kept"
proof -
  from assms obtain rs where rs: "getArray h a = Some rs" "list_all (isDoctor h) rs"
    by (auto simp: doctorArray_def split: option.splits)
  let ?p = "\<lambda>doctor. includes_str (toLowerCase (name doctor)) (toLowerCase term) \<or>
                      includes_str (toLowerCase (specialty doctor)) (toLowerCase term)"
  from filterLoop_r_total [OF rs(2), where kept = "[]" and p = ?p]
  obtain kept where "filterLoop_r h ?p rs [] = Some kept" "list_all (isDoctor h) kept"
    by auto
  with rs(1) show ?thesis by (simp add: filteredDoctors_r_def alloc_def)
qed

lemma render_wellFormed:
  assumes "doctorArray (heap c) (doctors c)"
    and "targetValid (heap c) (cells c)"
  shows "\<exists>c'. render c = Some c' \<and> wellFormed c' \<and> prefix (heap c) (heap c') \<and>
           doctors c' = doctors c \<and> cells c' = cells c \<and> performed c' = performed c"
proof -
  from filteredDoctors_r_total [OF assms(1), of "searchTerm_r (cells c)"]
  obtain kept where k:
    "filteredDoctors_r (heap c) (doctors c) (searchTerm_r (cells c)) =
       Some (heap c @ [ArrayObj kept], length (heap c))"
    "list_all (isDoctor (heap c)) kept"
    by blast
  let ?h = "heap c @ [ArrayObj kept]"
  let ?c = "c\<lparr>heap := ?h, rendered := length (heap c)\<rparr>"
  have p: "prefix (heap c) ?h" by simp
  have r: "render c = Some ?c" by (simp add: render_def k(1))
  have a: "doctorArray ?h (doctors c)" by (rule doctorArray_prefix [OF p assms(1)])
  have "list_all (isDoctor ?h) kept"
    using k(2) isDoctor_prefix [OF p] by (auto simp: list_all_iff)
  then have b: "doctorArray ?h (length (heap c))"
    by (simp add: doctorArray_def getArray_def)
  have t: "targetValid ?h (cells c)" by (rule targetValid_prefix [OF p assms(2)])
  have "wellFormed ?c" using a b t by (simp add: wellFormed_def)
  with r p show ?thesis by simp
qed

text \<open>Every handler returns the store it was given.\<close>

lemma handleCallDoctor_r_frame:
  "isDoctor h r \<Longrightarrow>
     \<exists>st' es. handleCallDoctor_r h r st = Some (h, st', es) \<and>
       (callingDoctor_r st' = callingDoctor_r st \<or> callingDoctor_r st' = Some r)"
  by (auto simp: handleCallDoctor_r_def isDoctor_def split: option.splits)

lemma handleCallDoctor_r_valid:
  assumes "isDoctor h r" and "targetValid h st"
  shows "\<exists>st' es. handleCallDoctor_r h r st = Some (h, st', es) \<and> targetValid h st'"
proof -
  from handleCallDoctor_r_frame [OF assms(1), of st] obtain st' es where s:
    "handleCallDoctor_r h r st = Some (h, st', es)"
    "callingDoctor_r st' = callingDoctor_r st \<or> callingDoctor_r st' = Some r"
    by blast
  from s(2) assms have "targetValid h st'" by (auto simp: targetValid_def)
  with s(1) show ?thesis by blast
qed

lemma dispatch_frame:
  assumes "wellFormed c"
  shows "\<exists>st es. dispatch userAgent c ev = Some (heap c, st, es) \<and> targetValid (heap c) st"
proof -
  from assms obtain shown where shown:
    "getArray (heap c) (rendered c) = Some shown" "list_all (isDoctor (heap c)) shown"
    by (auto simp: wellFormed_def doctorArray_def split: option.splits)
  from assms have tgt: "targetValid (heap c) (cells c)"
    by (simp add: wellFormed_def)
  have row: "isDoctor (heap c) (shown ! i)" if "i < length shown" for i
    using shown(2) that by (simp add: list_all_length)
  show ?thesis
  proof (cases ev)
    case (SearchChange typed)
    with tgt show ?thesis by (simp add: handleSearchChange_r_def targetValid_def)
  next
    case (CallDoctor i)
    show ?thesis
    proof (cases "i < length shown")
      case True
      from handleCallDoctor_r_valid [OF row [OF True] tgt]
      show ?thesis using CallDoctor shown(1) True by simp
    next
      case False
      with CallDoctor shown(1) tgt show ?thesis by simp
    qed
  next
    case (ClickCall i)
    show ?thesis
    proof (cases "i < length shown")
      case True
      from row [OF True] obtain d where d: "getDoctor (heap c) (shown ! i) = Some d"
        by (auto simp: isDoctor_def split: option.splits)
      from handleCallDoctor_r_valid [OF row [OF True] tgt] tgt
      show ?thesis using ClickCall shown(1) True d by auto
    next
      case False
      with ClickCall shown(1) tgt show ?thesis by simp
    qed
  next
    case WhatsAppCall
    with tgt show ?thesis
      by (auto simp: handleWhatsAppCall_r_def targetValid_def isDoctor_def
          split: option.splits)
  next
    case DirectCall
    with tgt show ?thesis
      by (auto simp: handleDirectCall_r_def targetValid_def isDoctor_def
          split: option.splits)
  next
    case Cancel
    with tgt show ?thesis by (simp add: handleCancel_r_def targetValid_def)
  next
    case Render
    with tgt show ?thesis by simp
  qed
qed

lemma step_frame:
  assumes "wellFormed c"
  shows "\<exists>c'. step userAgent c ev = Some c' \<and> wellFormed c' \<and> prefix (heap c) (heap c') \<and>
           doctors c' = doctors c"
proof -
  from dispatch_frame [OF assms, of userAgent ev] obtain st es where d:
    "dispatch userAgent c ev = Some (heap c, st, es)" "targetValid (heap c) st"
    by blast
  let ?c = "c\<lparr>heap := heap c, cells := st, performed := performed c @ es\<rparr>"
  from assms have "doctorArray (heap ?c) (doctors ?c)" by (simp add: wellFormed_def)
  moreover from d(2) have "targetValid (heap ?c) (cells ?c)" by simp
  ultimately obtain c' where
    "render ?c = Some c'" "wellFormed c'" "prefix (heap ?c) (heap c')" "doctors c' = doctors ?c"
    using render_wellFormed [of ?c] by blast
  with d(1) show ?thesis by (simp add: step_def)
qed

lemma run_frame:
  "wellFormed c \<Longrightarrow>
     \<exists>c'. run userAgent c evs = Some c' \<and> wellFormed c' \<and> prefix (heap c) (heap c') \<and>
       doctors c' = doctors c"
proof (induction evs arbitrary: c)
  case Nil
  then show ?case by simp
next
  case (Cons ev evs)
  from step_frame [OF Cons.prems, of userAgent ev] obtain c1 where c1:
    "step userAgent c ev = Some c1" "wellFormed c1" "prefix (heap c) (heap c1)"
    "doctors c1 = doctors c"
    by blast
  from Cons.IH [OF c1(2)] obtain c' where
    "run userAgent c1 evs = Some c'" "wellFormed c'" "prefix (heap c1) (heap c')"
    "doctors c' = doctors c1"
    by blast
  with c1 show ?case by (auto intro: prefix_order.trans)
qed

lemma mount_sample: "mount sampleHeap 3 = Some sampleComponent"
  by code_simp

lemma wellFormed_sample: "wellFormed sampleComponent"
  by code_simp

text \<open>
  Claim C9. Start from a component whose references are what the types say. Whatever
  sequence of operations runs (typing in the search box, renders and the filtering
  they do, contact attempts and clicks on any row, the messaging action, the
  direct-call action, cancel), the run has a result, and in its store every object
  that was there at the start is at its address unchanged: the \<^verbatim>\<open>doctors\<close> array holds the
  same references in the same order, and every doctor in it has the fields it had.
  The store has only grown, by the arrays that filtering allocated.
\<close>

theorem doctors_never_written:
  assumes "wellFormed c"
  shows "case run userAgent c evs of
           None \<Rightarrow> False
         | Some c' \<Rightarrow>
             prefix (heap c) (heap c') \<and> doctors c' = doctors c \<and>
             getArray (heap c') (doctors c') = getArray (heap c) (doctors c) \<and>
             (case getArray (heap c) (doctors c) of
                None \<Rightarrow> False
              | Some rs \<Rightarrow> map (getDoctor (heap c')) rs = map (getDoctor (heap c)) rs)"
proof -
  from run_frame [OF assms, of userAgent evs] obtain c' where c':
    "run userAgent c evs = Some c'" "prefix (heap c) (heap c')" "doctors c' = doctors c"
    by blast
  from assms obtain rs where rs:
    "getArray (heap c) (doctors c) = Some rs" "list_all (isDoctor (heap c)) rs"
    by (auto simp: wellFormed_def doctorArray_def split: option.splits)
  have "getDoctor (heap c') r = getDoctor (heap c) r" if "r \<in> set rs" for r
  proof -
    from rs(2) that obtain d where "getDoctor (heap c) r = Some d"
      by (auto simp: list_all_iff isDoctor_def split: option.splits)
    with getDoctor_prefix [OF c'(2)] show ?thesis by simp
  qed
  then have "map (getDoctor (heap c')) rs = map (getDoctor (heap c)) rs" by simp
  with c' rs(1) getArray_prefix [OF c'(2) rs(1)] show ?thesis by simp
qed

theorem doctors_never_written_witness:
  "wellFormed sampleComponent \<and>
   (case run desktopAgent sampleComponent sampleEvents of
      None \<Rightarrow> False
    | Some c' \<Rightarrow>
        prefix (heap sampleComponent) (heap c') \<and> doctors c' = doctors sampleComponent \<and>
        getArray (heap c') (doctors c') =
          getArray (heap sampleComponent) (doctors sampleComponent) \<and>
        (case getArray (heap sampleComponent) (doctors sampleComponent) of
           None \<Rightarrow> False
         | Some rs \<Rightarrow>
             map (getDoctor (heap c')) rs = map (getDoctor (heap sampleComponent)) rs))"
proof -
  note h = wellFormed_sample
  from h doctors_never_written [OF h, of desktopAgent sampleEvents] show ?thesis by blast
qed

text \<open>
  The sample run: what is allocated after the first render, the final state cells,
  the messages of the toasts and the navigations.
\<close>

lemma run_sample:
  "map_option (\<lambda>c. (drop 5 (heap c), cells c, map description (toasts (performed c)),
                      navigations (performed c)))
     (run desktopAgent sampleComponent sampleEvents) =
   Some ([ArrayObj [0, 1, 2], ArrayObj [0, 1, 2], ArrayObj [0, 1, 2], ArrayObj [0, 1, 2],
          ArrayObj [0, 1, 2], ArrayObj [0, 2], ArrayObj [0, 2], ArrayObj [0, 2],
          ArrayObj [0, 2], ArrayObj [0, 2], ArrayObj [0, 2]],
         \<lparr>searchTerm_r = ''CAR'', callingDoctor_r = Some 0, showCallDialog_r = False\<rparr>,
         [''Dr. Kiran Mehta is currently busy. Please try again later.'',
          ''Direct calling is only available on mobile devices.'',
          ''Dr. Carla Iyer is currently away. Please try again later.''],
         [WindowOpen ''https://wa.me/15551234567'' ''_blank''])"
  by code_simp

subsection \<open>The handlers over references and the handlers over values agree\<close>

lemma handleCallDoctor_r_refines:
  assumes "getDoctor h r = Some d"
  shows "map_option abstractResult (handleCallDoctor_r h r st) =
           Some (handleCallDoctor d (abstractState h st))"
  using assms
  by (simp add: handleCallDoctor_r_def handleCallDoctor_def abstractResult_def
      abstractState_def)

lemma handleWhatsAppCall_r_refines:
  assumes "targetValid h st"
  shows "map_option abstractResult (handleWhatsAppCall_r h st) =
           Some (handleWhatsAppCall (abstractState h st))"
  using assms
  by (auto simp: handleWhatsAppCall_r_def handleWhatsAppCall_def abstractResult_def
      abstractState_def targetValid_def isDoctor_def split: option.splits)

lemma handleDirectCall_r_refines:
  assumes "targetValid h st"
  shows "map_option abstractResult (handleDirectCall_r userAgent h st) =
           Some (handleDirectCall userAgent (abstractState h st))"
  using assms
  by (auto simp: handleDirectCall_r_def handleDirectCall_def abstractResult_def
      abstractState_def targetValid_def isDoctor_def split: option.splits)

lemma handleCancel_r_refines:
  "map_option abstractResult (handleCancel_r h st) = Some (handleCancel (abstractState h st))"
  by (simp add: handleCancel_r_def handleCancel_def abstractResult_def abstractState_def)

lemma handleSearchChange_r_refines:
  "map_option abstractResult (handleSearchChange_r s h st) =
     Some (handleSearchChange s (abstractState h st))"
  by (simp add: handleSearchChange_r_def handleSearchChange_def abstractResult_def
      abstractState_def)

lemma filterLoop_r_eq:
  "list_all (isDoctor h) rs \<Longrightarrow>
     filterLoop_r h p rs kept = Some (kept @ filter (\<lambda>r. p (the (getDoctor h r))) rs)"
proof (induction rs arbitrary: kept)
  case Nil
  show ?case by simp
next
  case (Cons r rs)
  from Cons.prems obtain d where d: "getDoctor h r = Some d"
    by (auto simp: isDoctor_def split: option.splits)
  from Cons.prems have "list_all (isDoctor h) rs" by simp
  from Cons.IH [OF this] d show ?case by simp
qed

lemma filteredDoctors_r_refines:
  assumes "getArray h a = Some rs" and "list_all (isDoctor h) rs"
  shows "\<exists>kept. filteredDoctors_r h a term = Some (h @ [ArrayObj kept], length h) \<and>
           map (\<lambda>r. the (getDoctor h r)) kept =
             filteredDoctors (map (\<lambda>r. the (getDoctor h r)) rs) term"
  using assms
  by (simp add: filteredDoctors_r_def filterLoop_r_eq alloc_def filteredDoctors_def
      array_filter_eq filter_map comp_def)

end
